theory Spec2Isabelle
  imports Main "HOL-Library.Word" "HOL-Library.List_Lexorder"
begin

section \<open>The document store of \<^verbatim>\<open>rdb_protocol/btree.cc\<close>\<close>

text \<open>
  The file under verification is \<^verbatim>\<open>src/rdb_protocol/btree.cc\<close>: point reads, writes and
  deletes, range erasure, backfill and the range scan (rget) with its transform pipeline and
  terminal. Every function of that file is embedded below under its own name. What the file
  calls but does not define (the B-tree primitives, the blob, the serializer, the key types,
  the query-language evaluator) lives in headers that are not part of the sources at hand;
  each such collaborator is either a parameter of the embedding or a definition marked
  ``Modelled from the spec''.
\<close>

subsection \<open>Bytes, keys, timestamps, errors\<close>

type_synonym byte = "8 word"

text \<open>
  \<^verbatim>\<open>store_key_t\<close> is a sized byte string; its comparison (\<^verbatim>\<open>sized_strcmp\<close>) is the
  lexicographic order on unsigned bytes with a proper prefix smaller, which is the order of
  \<^verbatim>\<open>HOL-Library.List_Lexorder\<close> on \<^typ>\<open>byte list\<close>.
\<close>

type_synonym store_key_t = "byte list"

type_synonym repli_timestamp_t = nat

text \<open>
  The ways a call of the file can fail: \<^verbatim>\<open>guarantee_err\<close> after deserialization
  (corruption), \<^verbatim>\<open>guarantee_err\<close> after serialization, a failed \<^verbatim>\<open>rassert\<close>, a failed
  \<^verbatim>\<open>guarantee\<close> on the variant of the response, an exception of the query-language
  evaluator, and \<^verbatim>\<open>back()\<close> on an empty vector (undefined behaviour in C++).
\<close>

datatype error =
    CorruptionError
  | EncodingError
  | AssertionViolation
  | GuaranteeFailed
  | EvalError
  | BackOfEmptyVector

subsection \<open>Value codec (parameter)\<close>

text \<open>
  Modelled from the spec: the Value Codec (4.1). \<^verbatim>\<open>wm << data; send_write_message\<close> and
  \<^verbatim>\<open>deserialize\<close> are defined outside the file; they are taken as two partial functions,
  \<open>None\<close> standing for a non-zero result code.
\<close>

record 'j codec =
  serialize :: "'j \<Rightarrow> byte list option"
  deserialize :: "byte list \<Rightarrow> 'j option"

subsection \<open>The store: leaf entries and blob storage\<close>

text \<open>
  An \<^verbatim>\<open>rdb_value_t\<close> holds a blob reference. The reference is modelled as a handle into
  the blob storage of the transaction; a handle whose storage is empty is a blob of size 0.
\<close>

type_synonym rdb_value_t = nat

record btree_store =
  leaf :: "store_key_t \<rightharpoonup> (rdb_value_t \<times> repli_timestamp_t)"
  blobs :: "rdb_value_t \<Rightarrow> byte list"
  next_ref :: rdb_value_t

text \<open>
  Modelled from the spec: the blob (\<^verbatim>\<open>blob_t\<close>, the variable-length value of section 3),
  whose code is not in the file. \<^verbatim>\<open>append_region\<close> grows the blob by \<open>n\<close> bytes,
  \<^verbatim>\<open>write_from_string\<close> overwrites from an offset, \<^verbatim>\<open>read_to_string\<close> reads a span,
  \<^verbatim>\<open>clear\<close> releases the storage.
\<close>

definition blob_valuesize :: "btree_store \<Rightarrow> rdb_value_t \<Rightarrow> nat" where
  "blob_valuesize s r = length (blobs s r)"

definition blob_read_to_string :: "btree_store \<Rightarrow> rdb_value_t \<Rightarrow> nat \<Rightarrow> nat \<Rightarrow> byte list" where
  "blob_read_to_string s r off n = take n (drop off (blobs s r))"

definition blob_append_region :: "btree_store \<Rightarrow> rdb_value_t \<Rightarrow> nat \<Rightarrow> btree_store" where
  "blob_append_region s r n = s\<lparr>blobs := (blobs s)(r := blobs s r @ replicate n 0)\<rparr>"

definition blob_write_from_string ::
  "btree_store \<Rightarrow> rdb_value_t \<Rightarrow> byte list \<Rightarrow> nat \<Rightarrow> btree_store" where
  "blob_write_from_string s r d off =
     s\<lparr>blobs := (blobs s)(r := take off (blobs s r) @ d @ drop (off + length d) (blobs s r))\<rparr>"

definition blob_clear :: "btree_store \<Rightarrow> rdb_value_t \<Rightarrow> btree_store" where
  "blob_clear s r = s\<lparr>blobs := (blobs s)(r := [])\<rparr>"

text \<open>
  \<^verbatim>\<open>scoped_malloc_t<rdb_value_t> new_value(MAX_RDB_VALUE_SIZE); bzero(...)\<close>: a fresh value
  whose blob reference is all zero, that is, a blob of size 0.
\<close>

definition new_zeroed_value :: "btree_store \<Rightarrow> rdb_value_t \<times> btree_store" where
  "new_zeroed_value s =
     (next_ref s, s\<lparr>blobs := (blobs s)(next_ref s := []), next_ref := Suc (next_ref s)\<rparr>)"

text \<open>
  Modelled from the spec: the lookup-and-lock primitive (section 6),
  \<^verbatim>\<open>find_keyvalue_location_for_read\<close>, \<^verbatim>\<open>find_keyvalue_location_for_write\<close> and
  \<^verbatim>\<open>apply_keyvalue_change\<close>, none of them defined in the file. The handle exposes whether a
  value exists and the current value; applying the change stores the handle's value under
  the key with the timestamp, or removes the entry when the handle holds no value.
\<close>

record keyvalue_location_t =
  kv_value :: "rdb_value_t option"

definition find_keyvalue_location_for_read ::
  "btree_store \<Rightarrow> store_key_t \<Rightarrow> keyvalue_location_t" where
  "find_keyvalue_location_for_read s k = \<lparr>kv_value = map_option fst (leaf s k)\<rparr>"

definition find_keyvalue_location_for_write ::
  "btree_store \<Rightarrow> store_key_t \<Rightarrow> keyvalue_location_t" where
  "find_keyvalue_location_for_write s k = \<lparr>kv_value = map_option fst (leaf s k)\<rparr>"

definition apply_keyvalue_change ::
  "btree_store \<Rightarrow> keyvalue_location_t \<Rightarrow> store_key_t \<Rightarrow> repli_timestamp_t \<Rightarrow> btree_store" where
  "apply_keyvalue_change s kv k t =
     s\<lparr>leaf := (leaf s)(k := map_option (\<lambda>v. (v, t)) (kv_value kv))\<rparr>"

subsection \<open>Point operations\<close>

text \<open>\<^verbatim>\<open>get_data\<close> (lines 17-35): read the whole blob, deserialize, guarantee success.\<close>

definition get_data :: "('j, 'x) codec_scheme \<Rightarrow> btree_store \<Rightarrow> rdb_value_t \<Rightarrow> error + 'j" where
  "get_data cd s v =
     (let serialized_data = blob_read_to_string s v 0 (blob_valuesize s v)
      in case deserialize cd serialized_data of
           None \<Rightarrow> Inl CorruptionError
         | Some d \<Rightarrow> Inr d)"

text \<open>\<^verbatim>\<open>rdb_get\<close> (lines 41-52).\<close>

definition rdb_get :: "('j, 'x) codec_scheme \<Rightarrow> store_key_t \<Rightarrow> btree_store \<Rightarrow> error + 'j option" where
  "rdb_get cd store_key s =
     (let kv_location = find_keyvalue_location_for_read s store_key
      in case kv_value kv_location of
           None \<Rightarrow> Inr None
         | Some v \<Rightarrow> (case get_data cd s v of Inl e \<Rightarrow> Inl e | Inr d \<Rightarrow> Inr (Some d)))"

datatype point_write_result_t = STORED | DUPLICATE

text \<open>\<^verbatim>\<open>rdb_set\<close> (lines 54-87).\<close>

definition rdb_set ::
  "('j, 'x) codec_scheme \<Rightarrow> store_key_t \<Rightarrow> 'j \<Rightarrow> repli_timestamp_t \<Rightarrow> btree_store
     \<Rightarrow> error + (point_write_result_t \<times> btree_store)" where
  "rdb_set cd k d timestamp s =
     (let kv_location = find_keyvalue_location_for_write s k;
          already_existed = (kv_value kv_location \<noteq> None);
          (new_value, s1) = new_zeroed_value s
      in case serialize cd d of
           None \<Rightarrow> Inl EncodingError
         | Some stream \<Rightarrow>
             (let s2 = blob_append_region s1 new_value (length stream);
                  s3 = blob_write_from_string s2 new_value stream 0;
                  kv_location' = kv_location\<lparr>kv_value := Some new_value\<rparr>;
                  s4 = apply_keyvalue_change s3 kv_location' k timestamp
              in Inr (if already_existed then DUPLICATE else STORED, s4)))"

datatype point_delete_result_t = DELETED | MISSING

text \<open>\<^verbatim>\<open>rdb_delete\<close> (lines 125-138).\<close>

definition rdb_delete ::
  "store_key_t \<Rightarrow> repli_timestamp_t \<Rightarrow> btree_store \<Rightarrow> point_delete_result_t \<times> btree_store" where
  "rdb_delete k timestamp s =
     (let kv_location = find_keyvalue_location_for_write s k
      in case kv_value kv_location of
           Some v \<Rightarrow>
             (let s1 = blob_clear s v;
                  kv_location' = kv_location\<lparr>kv_value := None\<rparr>;
                  s2 = apply_keyvalue_change s1 kv_location' k timestamp
              in (DELETED, s2))
         | None \<Rightarrow> (MISSING, s))"

subsection \<open>Key ranges\<close>

text \<open>
  The file reads a \<^verbatim>\<open>key_range_t\<close> through \<^verbatim>\<open>keys.left\<close> (a key, the inclusive left end),
  \<^verbatim>\<open>keys.right.unbounded\<close> and \<^verbatim>\<open>keys.right.key\<close> (the exclusive right end, when bounded);
  the record below has exactly these fields. The left end is never unbounded in this
  representation: the smallest key, the empty one, stands for ``no left bound''.
\<close>

record right_bound_t =
  unbounded :: bool
  key :: store_key_t

record key_range_t =
  left :: store_key_t
  right :: right_bound_t

text \<open>
  Modelled from the spec: the containment and superset tests of KeyRange (section 3);
  \<^verbatim>\<open>key_range_t::contains_key\<close>, \<^verbatim>\<open>is_empty\<close> and \<^verbatim>\<open>is_superset\<close> are declared in
  \<^verbatim>\<open>btree/keys.hpp\<close>, which is not in the sources. A right bound that is unbounded is
  greater than every bounded one.
\<close>

definition contains_key :: "key_range_t \<Rightarrow> store_key_t \<Rightarrow> bool" where
  "contains_key r k = (left r \<le> k \<and> (unbounded (right r) \<or> k < key (right r)))"

definition is_empty :: "key_range_t \<Rightarrow> bool" where
  "is_empty r = (if unbounded (right r) then False else key (right r) \<le> left r)"

definition right_bound_less :: "right_bound_t \<Rightarrow> right_bound_t \<Rightarrow> bool" where
  "right_bound_less a b =
     (if unbounded a then False else if unbounded b then True else key a < key b)"

definition is_superset :: "key_range_t \<Rightarrow> key_range_t \<Rightarrow> bool" where
  "is_superset r other =
     (if is_empty other then True
      else if left other < left r then False
      else if right_bound_less (right r) (right other) then False
      else True)"

text \<open>
  Modelled from the spec: the predecessor computation of Key (section 3),
  \<^verbatim>\<open>store_key_t::decrement\<close>, and its mirror \<^verbatim>\<open>store_key_t::increment\<close>, both declared in
  \<^verbatim>\<open>btree/keys.hpp\<close>. Keys are byte strings of at most \<open>m\<close> bytes (\<^verbatim>\<open>MAX_KEY_SIZE\<close>, a
  constant of another header, taken as a parameter). The predecessor of a key ending in a
  zero byte is the key without that byte; otherwise the last byte is decreased and the key is
  padded with \<open>255\<close> to full length. The empty key has no predecessor: \<^verbatim>\<open>decrement\<close>
  answers \<open>False\<close> and leaves it as it is. \<^verbatim>\<open>increment\<close> appends a zero byte when there is
  room; at full length it drops the trailing \<open>255\<close> bytes and increases the last byte left,
  and answers \<open>False\<close> on the largest key.
\<close>

definition decrement :: "nat \<Rightarrow> store_key_t \<Rightarrow> bool \<times> store_key_t" where
  "decrement m k =
     (if k = [] then (False, k)
      else if 0 < last k
        then (True, butlast k @ [last k - 1] @ replicate (m - length k) 255)
        else (True, butlast k))"

definition strip_trailing_255 :: "store_key_t \<Rightarrow> store_key_t" where
  "strip_trailing_255 k = rev (dropWhile (\<lambda>b. b = 255) (rev k))"

definition increment :: "nat \<Rightarrow> store_key_t \<Rightarrow> bool \<times> store_key_t" where
  "increment m k =
     (if length k < m then (True, k @ [0])
      else (let k' = strip_trailing_255 k
            in if k' = [] then (False, replicate m 255)
               else (True, butlast k' @ [last k' + 1])))"

text \<open>
  Modelled from the spec: the construction of a KeyRange from a left and a right bound,
  each unbounded, inclusive or exclusive (section 3); the constructors of \<^verbatim>\<open>key_range_t\<close>
  are not in the sources. An exclusive left bound and an inclusive right bound are turned
  into the representation above by \<^verbatim>\<open>increment\<close>; an inclusive right bound on the largest
  key is an unbounded right end. \<^verbatim>\<open>key_range_empty\<close> is the range from the empty key to
  the empty key, which contains no key.
\<close>

datatype bound_t = bound_open | bound_closed | bound_none

definition key_range_empty :: key_range_t where
  "key_range_empty = \<lparr>left = [], right = \<lparr>unbounded = False, key = []\<rparr>\<rparr>"

definition key_range_ctor ::
  "nat \<Rightarrow> bound_t \<Rightarrow> store_key_t \<Rightarrow> bound_t \<Rightarrow> store_key_t \<Rightarrow> key_range_t" where
  "key_range_ctor m lm l rm r =
     (let rb = (case rm of
                  bound_closed \<Rightarrow>
                    (case increment m r of
                       (True, r') \<Rightarrow> \<lparr>unbounded = False, key = r'\<rparr>
                     | (False, _) \<Rightarrow> \<lparr>unbounded = True, key = []\<rparr>)
                | bound_open \<Rightarrow> \<lparr>unbounded = False, key = r\<rparr>
                | bound_none \<Rightarrow> \<lparr>unbounded = True, key = []\<rparr>)
      in case lm of
           bound_closed \<Rightarrow> \<lparr>left = l, right = rb\<rparr>
         | bound_open \<Rightarrow>
             (case increment m l of
                (True, l') \<Rightarrow> \<lparr>left = l', right = rb\<rparr>
              | (False, _) \<Rightarrow> key_range_empty)
         | bound_none \<Rightarrow> \<lparr>left = [], right = rb\<rparr>)"

subsection \<open>Range erase\<close>

text \<open>
  Modelled from the spec: the generic range-erase primitive (section 6),
  \<^verbatim>\<open>btree_erase_range_generic\<close>, takes an optional exclusive left key and an optional
  inclusive right key (a null pointer is ``no bound'') and removes the entries between them
  that the tester admits. \<open>erase_bounds_admit\<close> says which keys lie between the bounds.
\<close>

record erase_bounds =
  left_exclusive_or_null :: "store_key_t option"
  right_inclusive_or_null :: "store_key_t option"

definition erase_bounds_admit :: "erase_bounds \<Rightarrow> store_key_t \<Rightarrow> bool" where
  "erase_bounds_admit b k =
     ((case left_exclusive_or_null b of None \<Rightarrow> True | Some l \<Rightarrow> l < k)
      \<and> (case right_inclusive_or_null b of None \<Rightarrow> True | Some r \<Rightarrow> k \<le> r))"

text \<open>
  \<^verbatim>\<open>rdb_erase_range\<close>, the overload with explicit keys (lines 140-159): the bounds it hands
  to \<^verbatim>\<open>btree_erase_range_generic\<close>, a key that is not supplied becoming a null pointer.
  The tester is passed on as it is, and the value deleter clears the blob of every value
  the primitive removes; neither depends on the bounds.
\<close>

definition rdb_erase_range_keys ::
  "bool \<Rightarrow> store_key_t \<Rightarrow> bool \<Rightarrow> store_key_t \<Rightarrow> erase_bounds" where
  "rdb_erase_range_keys left_key_supplied left_key_exclusive
                        right_key_supplied right_key_inclusive =
     \<lparr>left_exclusive_or_null = (if left_key_supplied then Some left_key_exclusive else None),
      right_inclusive_or_null = (if right_key_supplied then Some right_key_inclusive else None)\<rparr>"

text \<open>
  \<^verbatim>\<open>rdb_erase_range\<close>, the overload with a key range (lines 161-173). The result of
  \<^verbatim>\<open>decrement\<close> is kept for the left key and dropped for the right key.
\<close>

definition rdb_erase_range :: "nat \<Rightarrow> key_range_t \<Rightarrow> erase_bounds" where
  "rdb_erase_range m keys =
     (let left_exclusive = left keys;
          right_inclusive = key (right keys);
          (left_key_supplied, left_exclusive') = decrement m left_exclusive;
          right_key_supplied = (\<not> unbounded (right keys));
          right_inclusive' = (if right_key_supplied
                              then snd (decrement m right_inclusive) else right_inclusive)
      in rdb_erase_range_keys left_key_supplied left_exclusive'
                              right_key_supplied right_inclusive')"

subsection \<open>Backfill\<close>

text \<open>
  Modelled from the spec: the traversal primitive behind backfill (sections 4.4 and 6),
  \<^verbatim>\<open>do_agnostic_btree_backfill\<close>, reports a sequence of events to the agnostic callback:
  a deleted range, a deleted key with its recency, or a live pair. Which events it reports
  for a range and a timestamp is decided outside the file, so the sequence is a parameter.
\<close>

datatype backfill_event =
    ev_delete_range key_range_t
  | ev_deletion store_key_t repli_timestamp_t
  | ev_pair repli_timestamp_t store_key_t rdb_value_t

record 'j backfill_atom_t =
  atom_key :: store_key_t
  atom_value :: 'j
  atom_recency :: repli_timestamp_t

text \<open>What \<^verbatim>\<open>rdb_backfill_callback_t *cb_\<close> is called with, in order.\<close>

datatype 'j callback_call =
    cb_on_delete_range key_range_t
  | cb_on_deletion store_key_t repli_timestamp_t
  | cb_on_keyvalue "'j backfill_atom_t"

text \<open>
  \<^verbatim>\<open>agnostic_rdb_backfill_callback_t\<close> (lines 89-116). \<^verbatim>\<open>rassert\<close> is a macro of
  \<^verbatim>\<open>errors.hpp\<close>; a failed one is the assertion violation of section 7 of the spec.
\<close>

definition on_delete_range ::
  "key_range_t \<Rightarrow> key_range_t \<Rightarrow> 'j callback_call list \<Rightarrow> error + 'j callback_call list" where
  "on_delete_range kr rng calls =
     (if is_superset kr rng then Inr (calls @ [cb_on_delete_range rng])
      else Inl AssertionViolation)"

definition on_deletion ::
  "key_range_t \<Rightarrow> store_key_t \<Rightarrow> repli_timestamp_t \<Rightarrow> 'j callback_call list
     \<Rightarrow> error + 'j callback_call list" where
  "on_deletion kr k recency calls =
     (if contains_key kr k then Inr (calls @ [cb_on_deletion k recency])
      else Inl AssertionViolation)"

definition on_pair ::
  "('j, 'x) codec_scheme \<Rightarrow> btree_store \<Rightarrow> key_range_t \<Rightarrow> repli_timestamp_t \<Rightarrow> store_key_t
     \<Rightarrow> rdb_value_t \<Rightarrow> 'j callback_call list \<Rightarrow> error + 'j callback_call list" where
  "on_pair cd s kr recency k val calls =
     (if contains_key kr k
      then (case get_data cd s val of
              Inl e \<Rightarrow> Inl e
            | Inr d \<Rightarrow>
                Inr (calls @ [cb_on_keyvalue
                                \<lparr>atom_key = k, atom_value = d, atom_recency = recency\<rparr>]))
      else Inl AssertionViolation)"

text \<open>
  Modelled from the spec: \<^verbatim>\<open>do_agnostic_btree_backfill\<close> calls the agnostic callback once
  for every event, in order (\<open>agnostic_callback\<close> is the virtual call, by the kind of the
  event); a failure ends the traversal. The calls that have reached
  \<^verbatim>\<open>cb_\<close> by then have been made, so the answer holds them next to the failure, if any.
\<close>

definition agnostic_callback ::
  "('j, 'x) codec_scheme \<Rightarrow> btree_store \<Rightarrow> key_range_t \<Rightarrow> backfill_event
     \<Rightarrow> 'j callback_call list \<Rightarrow> error + 'j callback_call list" where
  "agnostic_callback cd s kr ev calls =
     (case ev of
        ev_delete_range rng \<Rightarrow> on_delete_range kr rng calls
      | ev_deletion k recency \<Rightarrow> on_deletion kr k recency calls
      | ev_pair recency k val \<Rightarrow> on_pair cd s kr recency k val calls)"

fun do_agnostic_btree_backfill ::
  "('j, 'x) codec_scheme \<Rightarrow> btree_store \<Rightarrow> key_range_t \<Rightarrow> backfill_event list
     \<Rightarrow> 'j callback_call list \<Rightarrow> 'j callback_call list \<times> error option" where
  "do_agnostic_btree_backfill cd s kr [] calls = (calls, None)"
| "do_agnostic_btree_backfill cd s kr (ev # evs) calls =
     (case agnostic_callback cd s kr ev calls of
        Inl e \<Rightarrow> (calls, Some e)
      | Inr calls' \<Rightarrow> do_agnostic_btree_backfill cd s kr evs calls')"

text \<open>
  \<^verbatim>\<open>rdb_backfill\<close> (lines 118-123): wrap the callback with the requested range and run the
  traversal. The answer is the sequence of calls the callback of the caller has received,
  and the failure that ended the backfill, if one did.
\<close>

definition rdb_backfill ::
  "('j, 'x) codec_scheme \<Rightarrow> btree_store \<Rightarrow> key_range_t \<Rightarrow> backfill_event list
     \<Rightarrow> 'j callback_call list \<times> error option" where
  "rdb_backfill cd s key_range evs = do_agnostic_btree_backfill cd s key_range evs []"

text \<open>An event, and a call of the callback, that lies within a range.\<close>

fun event_within :: "key_range_t \<Rightarrow> backfill_event \<Rightarrow> bool" where
  "event_within kr (ev_delete_range rng) = is_superset kr rng"
| "event_within kr (ev_deletion k recency) = contains_key kr k"
| "event_within kr (ev_pair recency k val) = contains_key kr k"

fun call_within :: "key_range_t \<Rightarrow> 'j callback_call \<Rightarrow> bool" where
  "call_within kr (cb_on_delete_range rng) = is_superset kr rng"
| "call_within kr (cb_on_deletion k recency) = contains_key kr k"
| "call_within kr (cb_on_keyvalue atom) = contains_key kr (atom_key atom)"

subsection \<open>What the scan takes from other files\<close>

text \<open>
  The remaining collaborators of the range scan, next to the codec: \<^verbatim>\<open>MAX_KEY_SIZE\<close> and
  \<^verbatim>\<open>rget_max_chunk_size\<close> (constants of other headers; the latter is a \<^verbatim>\<open>size_t\<close>), the
  JSON printer behind both \<^verbatim>\<open>scoped_cJSON_t::Print\<close> and \<^verbatim>\<open>cJSON_print_std_string\<close>, the
  member lookup \<^verbatim>\<open>GetObjectItem\<close>, and the value of a default-constructed
  \<^verbatim>\<open>key_range_t\<close>.

  Modelled from the spec: one printer stands for both printing functions, since the spec
  (4.5) says that the attribute is canonicalized ``via the same encoding used for range
  boundaries''.
\<close>

record 'j ext = "'j codec" +
  MAX_KEY_SIZE :: nat
  rget_max_chunk_size :: "64 word"
  Print :: "'j \<Rightarrow> byte list"
  GetObjectItem :: "'j \<Rightarrow> string \<Rightarrow> 'j option"
  default_key_range :: key_range_t

subsection \<open>Transforms\<close>

text \<open>
  Modelled from the spec: predicate and mapping evaluation is ``an opaque callable''
  (section 1); the protocol-buffer terms and the evaluator (\<^verbatim>\<open>predicate_t\<close>, \<^verbatim>\<open>map\<close>,
  \<^verbatim>\<open>concatmap\<close>, \<^verbatim>\<open>eval\<close>) are not in the sources. A step carries the function its term
  evaluates to, from the environment and the document to a result or an error (an
  exception of the evaluator). A concat-map yields a finite stream, given as a list.
\<close>

datatype ('e, 'j) transform_variant =
    Builtin_Filter "'e \<Rightarrow> 'j \<Rightarrow> error + bool"
  | Builtin_Map "'e \<Rightarrow> 'j \<Rightarrow> error + 'j"
  | Builtin_ConcatMap "'e \<Rightarrow> 'j \<Rightarrow> error + 'j list"
  | Builtin_Range string "('e \<Rightarrow> error + 'j) option" "('e \<Rightarrow> error + 'j) option"

text \<open>
  \<^verbatim>\<open>while (data = stream->next()) out->push_back(data);\<close> (lines 208-210).
\<close>

fun drain_stream :: "'j list \<Rightarrow> 'j list \<Rightarrow> 'j list" where
  "drain_stream [] out = out"
| "drain_stream (d # stream) out = drain_stream stream (out @ [d])"

text \<open>Evaluation of an optional bound (lines 220-226): absent bounds stay null.\<close>

definition eval_bound :: "('e \<Rightarrow> error + 'j) option \<Rightarrow> 'e \<Rightarrow> error + 'j option" where
  "eval_bound b env =
     (case b of
        None \<Rightarrow> Inr None
      | Some t \<Rightarrow> (case t env of Inl e \<Rightarrow> Inl e | Inr v \<Rightarrow> Inr (Some v)))"

text \<open>
  The key range of a range step (lines 217 and 228-237). With neither bound the variable
  keeps the value of its default construction.
\<close>

definition range_of_bounds ::
  "('j, 'x) ext_scheme \<Rightarrow> 'j option \<Rightarrow> 'j option \<Rightarrow> key_range_t" where
  "range_of_bounds x lowerbound upperbound =
     (case (lowerbound, upperbound) of
        (Some lo, Some hi) \<Rightarrow>
          key_range_ctor (MAX_KEY_SIZE x) bound_closed (Print x lo) bound_closed (Print x hi)
      | (Some lo, None) \<Rightarrow>
          key_range_ctor (MAX_KEY_SIZE x) bound_closed (Print x lo) bound_none []
      | (None, Some hi) \<Rightarrow>
          key_range_ctor (MAX_KEY_SIZE x) bound_none [] bound_closed (Print x hi)
      | (None, None) \<Rightarrow> default_key_range x)"

text \<open>
  \<^verbatim>\<open>transform_visitor_t\<close> (lines 185-251): the visitor holds the document, the output list
  and the environment; applying it to a step returns the output list as the step leaves it.
\<close>

fun transform_visitor_t ::
  "('j, 'x) ext_scheme \<Rightarrow> 'j \<Rightarrow> 'j list \<Rightarrow> 'e \<Rightarrow> ('e, 'j) transform_variant
     \<Rightarrow> error + 'j list" where
  "transform_visitor_t x json out env (Builtin_Filter predicate) =
     (case predicate env json of
        Inl e \<Rightarrow> Inl e
      | Inr b \<Rightarrow> Inr (if b then out @ [json] else out))"
| "transform_visitor_t x json out env (Builtin_Map mapping) =
     (case mapping env json of
        Inl e \<Rightarrow> Inl e
      | Inr d \<Rightarrow> Inr (out @ [d]))"
| "transform_visitor_t x json out env (Builtin_ConcatMap mapping) =
     (case mapping env json of
        Inl e \<Rightarrow> Inl e
      | Inr stream \<Rightarrow> Inr (drain_stream stream out))"
| "transform_visitor_t x json out env (Builtin_Range attrname lower upper) =
     (case eval_bound lower env of
        Inl e \<Rightarrow> Inl e
      | Inr lowerbound \<Rightarrow>
          (case eval_bound upper env of
             Inl e \<Rightarrow> Inl e
           | Inr upperbound \<Rightarrow>
               (let key_range = range_of_bounds x lowerbound upperbound
                in case GetObjectItem x json attrname of
                     None \<Rightarrow> Inr out
                   | Some val \<Rightarrow>
                       Inr (if contains_key key_range (Print x val)
                            then out @ [json] else out))))"

text \<open>The inner loop of \<^verbatim>\<open>handle_pair\<close> (lines 385-389): every document through one step.\<close>

fun transform_data ::
  "('j, 'x) ext_scheme \<Rightarrow> 'e \<Rightarrow> ('e, 'j) transform_variant \<Rightarrow> 'j list \<Rightarrow> 'j list
     \<Rightarrow> error + 'j list" where
  "transform_data x env it [] tmp = Inr tmp"
| "transform_data x env it (jt # data) tmp =
     (case transform_visitor_t x jt tmp env it of
        Inl e \<Rightarrow> Inl e
      | Inr tmp' \<Rightarrow> transform_data x env it data tmp')"

text \<open>The outer loop (lines 380-392): the steps in order, each on the output of the last.\<close>

fun apply_transforms ::
  "('j, 'x) ext_scheme \<Rightarrow> 'e \<Rightarrow> ('e, 'j) transform_variant list \<Rightarrow> 'j list
     \<Rightarrow> error + 'j list" where
  "apply_transforms x env [] data = Inr data"
| "apply_transforms x env (it # transform) data =
     (case transform_data x env it data [] of
        Inl e \<Rightarrow> Inl e
      | Inr tmp \<Rightarrow> apply_transforms x env transform tmp)"

subsection \<open>Terminals and the result of a scan\<close>

text \<open>
  Modelled from the spec: TerminalOp and ScanResult (section 3). The terminal variants carry
  the functions their terms evaluate to: a grouped map-reduce its group mapping, value
  mapping, base and reduction body; a reduction its body, applied to the accumulator (a
  shared pointer that may be null) and the document; a for-each its write queries, whose
  effects on other tables are outside this file and whose responses are dropped. The
  result is the variant \<^verbatim>\<open>rget_read_response_t::result_t\<close>; the counter of \<^verbatim>\<open>length_t\<close> is
  an integer whose width is declared elsewhere.
\<close>

datatype ('e, 'j) terminal_variant =
    Builtin_GroupedMapReduce
      "'e \<Rightarrow> 'j \<Rightarrow> error + 'j" "'e \<Rightarrow> 'j \<Rightarrow> error + 'j"
      "'e \<Rightarrow> error + 'j" "'e \<Rightarrow> 'j \<Rightarrow> 'j \<Rightarrow> error + 'j"
  | Reduction "'e \<Rightarrow> 'j option \<Rightarrow> 'j \<Rightarrow> error + 'j"
  | Length
  | WriteQuery_ForEach "('e \<Rightarrow> 'j \<Rightarrow> error + unit) list"

datatype 'j result_t =
    stream_t "'j list"
  | groups_t "'j \<rightharpoonup> 'j"
  | atom_t "'j option"
  | length_t int
  | inserted_t

record 'j rget_read_response_t =
  result :: "'j result_t"
  truncated :: bool
  last_considered_key :: store_key_t

text \<open>\<^verbatim>\<open>estimate_rget_response_size\<close> (lines 175-180).\<close>

definition estimate_rget_response_size :: "'j \<Rightarrow> 64 word" where
  "estimate_rget_response_size json = 250"

text \<open>
  \<^verbatim>\<open>terminal_initializer_visitor_t\<close> (lines 254-269): the value it assigns to the result,
  each a default-constructed alternative.
\<close>

fun terminal_initializer_visitor_t :: "('e, 'j) terminal_variant \<Rightarrow> 'j result_t" where
  "terminal_initializer_visitor_t (Builtin_GroupedMapReduce gm vm base body) = groups_t Map.empty"
| "terminal_initializer_visitor_t (Reduction body) = atom_t None"
| "terminal_initializer_visitor_t Length = length_t 0"
| "terminal_initializer_visitor_t (WriteQuery_ForEach queries) = inserted_t"

definition get_with_default :: "('k \<rightharpoonup> 'v) \<Rightarrow> 'k \<Rightarrow> 'v \<Rightarrow> 'v" where
  "get_with_default m k dflt = (case m k of Some v \<Rightarrow> v | None \<Rightarrow> dflt)"

text \<open>The loop over the write queries of a for-each (lines 344-348).\<close>

fun execute_queries :: "'e \<Rightarrow> 'j \<Rightarrow> ('e \<Rightarrow> 'j \<Rightarrow> error + unit) list \<Rightarrow> error + unit" where
  "execute_queries en json [] = Inr ()"
| "execute_queries en json (q # qs) =
     (case q en json of Inl e \<Rightarrow> Inl e | Inr u \<Rightarrow> execute_queries en json qs)"

text \<open>
  \<^verbatim>\<open>terminal_visitor_t\<close> (lines 272-355): the result as one document leaves it. A result of
  another alternative than the one the terminal expects fails the \<^verbatim>\<open>guarantee\<close>.
\<close>

fun terminal_visitor_t ::
  "'j \<Rightarrow> 'e \<Rightarrow> 'j result_t \<Rightarrow> ('e, 'j) terminal_variant \<Rightarrow> error + 'j result_t" where
  "terminal_visitor_t json en out (Builtin_GroupedMapReduce gm vm base body) =
     (case out of
        groups_t res_groups \<Rightarrow>
          (case gm en json of
             Inl e \<Rightarrow> Inl e
           | Inr grouping \<Rightarrow>
               (case vm en json of
                  Inl e \<Rightarrow> Inl e
                | Inr json_cpy \<Rightarrow>
                    (case base en of
                       Inl e \<Rightarrow> Inl e
                     | Inr b \<Rightarrow>
                         (case body en (get_with_default res_groups grouping b) json_cpy of
                            Inl e \<Rightarrow> Inl e
                          | Inr v \<Rightarrow> Inr (groups_t (res_groups(grouping \<mapsto> v)))))))
      | _ \<Rightarrow> Inl GuaranteeFailed)"
| "terminal_visitor_t json en out (Reduction body) =
     (case out of
        atom_t res_atom \<Rightarrow>
          (case body en res_atom json of
             Inl e \<Rightarrow> Inl e
           | Inr v \<Rightarrow> Inr (atom_t (Some v)))
      | _ \<Rightarrow> Inl GuaranteeFailed)"
| "terminal_visitor_t json en out Length =
     (case out of
        length_t n \<Rightarrow> Inr (length_t (n + 1))
      | _ \<Rightarrow> Inl GuaranteeFailed)"
| "terminal_visitor_t json en out (WriteQuery_ForEach queries) =
     (case execute_queries en json queries of
        Inl e \<Rightarrow> Inl e
      | Inr u \<Rightarrow> Inr out)"

text \<open>The loop of \<^verbatim>\<open>handle_pair\<close> over the documents that reach the terminal (lines 404-408).\<close>

fun terminal_data ::
  "'e \<Rightarrow> ('e, 'j) terminal_variant \<Rightarrow> 'j list \<Rightarrow> 'j result_t \<Rightarrow> error + 'j result_t" where
  "terminal_data en t [] out = Inr out"
| "terminal_data en t (jt # data) out =
     (case terminal_visitor_t jt en out t of
        Inl e \<Rightarrow> Inl e
      | Inr out' \<Rightarrow> terminal_data en t data out')"

subsection \<open>The range scan\<close>

text \<open>
  \<^verbatim>\<open>rdb_rget_depth_first_traversal_callback_t\<close> (lines 358-419), with the fields of the class.
  \<^verbatim>\<open>maximum\<close> is an \<^verbatim>\<open>int\<close>, \<^verbatim>\<open>cumulative_size\<close> a \<^verbatim>\<open>size_t\<close>. The transaction is the store
  the scan reads.
\<close>

record ('e, 'j) rdb_rget_depth_first_traversal_callback_t =
  transaction :: btree_store
  maximum :: "32 word"
  response :: "'j rget_read_response_t"
  cumulative_size :: "64 word"
  env :: 'e
  transform :: "('e, 'j) transform_variant list"
  terminal :: "('e, 'j) terminal_variant option"

text \<open>
  The constructor (lines 360-366), which leaves the response default-constructed.
  Modelled from the spec: a fresh ScanResult (section 3) is an empty document stream, the
  alternative that the branch without a terminal expects to find, and its last considered
  key is the empty key; \<^verbatim>\<open>rget_read_response_t\<close> is declared in another header.
\<close>

definition rget_callback_init ::
  "btree_store \<Rightarrow> 32 word \<Rightarrow> 'e \<Rightarrow> ('e, 'j) transform_variant list
     \<Rightarrow> ('e, 'j) terminal_variant option \<Rightarrow> ('e, 'j) rdb_rget_depth_first_traversal_callback_t" where
  "rget_callback_init txn mx en tr te =
     \<lparr>transaction = txn, maximum = mx,
      response = \<lparr>result = stream_t [], truncated = False, last_considered_key = []\<rparr>,
      cumulative_size = 0, env = en, transform = tr, terminal = te\<rparr>"

text \<open>
  \<^verbatim>\<open>handle_pair\<close> (lines 367-411). The answer is whether the traversal goes on, with the
  callback as the call leaves it. \<^verbatim>\<open>stream->back()\<close> on an empty stream is an error of its
  own; \<^verbatim>\<open>int(stream->size())\<close> is the size cut to 32 bits and read as signed.
\<close>

definition handle_pair ::
  "('j, 'x) ext_scheme \<Rightarrow> ('e, 'j) rdb_rget_depth_first_traversal_callback_t
     \<Rightarrow> store_key_t \<times> rdb_value_t
     \<Rightarrow> error + (bool \<times> ('e, 'j) rdb_rget_depth_first_traversal_callback_t)" where
  "handle_pair x cb kv =
     (let store_key = fst kv;
          response1 = (if last_considered_key (response cb) < store_key
                       then (response cb)\<lparr>last_considered_key := store_key\<rparr>
                       else response cb)
      in case get_data x (transaction cb) (snd kv) of
           Inl e \<Rightarrow> Inl e
         | Inr d \<Rightarrow>
             (case apply_transforms x (env cb) (transform cb) [d] of
                Inl e \<Rightarrow> Inl e
              | Inr data \<Rightarrow>
                  (case terminal cb of
                     None \<Rightarrow>
                       (case result response1 of
                          stream_t stream \<Rightarrow>
                            (let stream' = stream @ data
                             in if stream' = [] then Inl BackOfEmptyVector
                                else
                                  (let cumulative_size' =
                                         cumulative_size cb
                                           + estimate_rget_response_size (last stream')
                                   in Inr (sint (word_of_nat (length stream') :: 32 word)
                                             < sint (maximum cb)
                                           \<and> cumulative_size' < rget_max_chunk_size x,
                                           cb\<lparr>response := response1\<lparr>result := stream_t stream'\<rparr>,
                                              cumulative_size := cumulative_size'\<rparr>)))
                        | _ \<Rightarrow> Inl GuaranteeFailed)
                   | Some t \<Rightarrow>
                       (case terminal_data (env cb) t data (terminal_initializer_visitor_t t) of
                          Inl e \<Rightarrow> Inl e
                        | Inr out \<Rightarrow> Inr (True, cb\<lparr>response := response1\<lparr>result := out\<rparr>\<rparr>)))))"

text \<open>
  Modelled from the spec: the traversal primitive (section 6),
  \<^verbatim>\<open>btree_depth_first_traversal\<close>, hands the pairs of the range to the callback in
  ascending key order and stops when the callback answers ``stop''. The pairs the range
  holds are the parameter \<open>pairs\<close>.
\<close>

fun btree_depth_first_traversal ::
  "('j, 'x) ext_scheme \<Rightarrow> (store_key_t \<times> rdb_value_t) list
     \<Rightarrow> ('e, 'j) rdb_rget_depth_first_traversal_callback_t
     \<Rightarrow> error + ('e, 'j) rdb_rget_depth_first_traversal_callback_t" where
  "btree_depth_first_traversal x [] cb = Inr cb"
| "btree_depth_first_traversal x (kv # pairs) cb =
     (case handle_pair x cb kv of
        Inl e \<Rightarrow> Inl e
      | Inr (continue, cb') \<Rightarrow>
          (if continue then btree_depth_first_traversal x pairs cb' else Inr cb'))"

text \<open>
  \<^verbatim>\<open>rdb_rget_slice\<close> (lines 421-434), in two steps: the callback after the traversal, and
  the response with its truncation flag.
\<close>

definition rget_final_callback ::
  "('j, 'x) ext_scheme \<Rightarrow> btree_store \<Rightarrow> (store_key_t \<times> rdb_value_t) list \<Rightarrow> 32 word \<Rightarrow> 'e
     \<Rightarrow> ('e, 'j) transform_variant list \<Rightarrow> ('e, 'j) terminal_variant option
     \<Rightarrow> error + ('e, 'j) rdb_rget_depth_first_traversal_callback_t" where
  "rget_final_callback x txn pairs mx en tr te =
     btree_depth_first_traversal x pairs (rget_callback_init txn mx en tr te)"

definition rdb_rget_slice ::
  "('j, 'x) ext_scheme \<Rightarrow> btree_store \<Rightarrow> (store_key_t \<times> rdb_value_t) list \<Rightarrow> 32 word \<Rightarrow> 'e
     \<Rightarrow> ('e, 'j) transform_variant list \<Rightarrow> ('e, 'j) terminal_variant option
     \<Rightarrow> error + 'j rget_read_response_t" where
  "rdb_rget_slice x txn pairs mx en tr te =
     (case rget_final_callback x txn pairs mx en tr te of
        Inl e \<Rightarrow> Inl e
      | Inr callback \<Rightarrow>
          Inr (if rget_max_chunk_size x \<le> cumulative_size callback
               then (response callback)\<lparr>truncated := True\<rparr>
               else (response callback)\<lparr>truncated := False\<rparr>))"

subsection \<open>A concrete instance for evaluation\<close>

text \<open>
  Documents are byte strings that serialize and print as themselves and have one
  attribute, \<open>''id''\<close>, whose value is the document. Keys have at most 250 bytes, the
  chunk budget is 1000 (four documents of estimated size 250), and a default-constructed
  key range is the empty range. The store holds key \<open>[1]\<close> with document \<open>[10]\<close> and key
  \<open>[2]\<close> with document \<open>[20]\<close>.
\<close>

definition example_ext :: "byte list ext" where
  "example_ext =
     \<lparr>serialize = Some, deserialize = Some, MAX_KEY_SIZE = 250,
      rget_max_chunk_size = 1000, Print = (\<lambda>d. d),
      GetObjectItem = (\<lambda>d a. if a = ''id'' then Some d else None),
      default_key_range = key_range_empty\<rparr>"

text \<open>The same collaborators with a chunk budget of one estimated document.\<close>

definition example_ext_tight :: "byte list ext" where
  "example_ext_tight = example_ext\<lparr>rget_max_chunk_size := 250\<rparr>"

definition example_store :: btree_store where
  "example_store =
     \<lparr>leaf = [[1] \<mapsto> (0, 1), [2] \<mapsto> (1, 1)],
      blobs = (\<lambda>r. if r = 0 then [10] else if r = 1 then [20] else []),
      next_ref = 2\<rparr>"

text \<open>
  A requested range for backfill, from \<open>[1]\<close> inclusive to \<open>[3]\<close> exclusive, and three
  events within it.
\<close>

definition example_range :: key_range_t where
  "example_range = \<lparr>left = [1], right = \<lparr>unbounded = False, key = [3]\<rparr>\<rparr>"

definition example_events :: "backfill_event list" where
  "example_events =
     [ev_deletion [1, 7] 4,
      ev_pair 1 [2] 1,
      ev_delete_range \<lparr>left = [2], right = \<lparr>unbounded = False, key = [2, 9]\<rparr>\<rparr>]"

section \<open>Point operations: round trip and deletion\<close>

text \<open>
  Claim C5. For every key and document, \<^verbatim>\<open>set\<close> followed by \<^verbatim>\<open>get\<close> on the same key
  returns the document just written; \<^verbatim>\<open>set\<close> answers \<^verbatim>\<open>DUPLICATE\<close> when the key had a
  value and \<^verbatim>\<open>STORED\<close> when it had none. The store \<open>s\<close> is arbitrary, so the document read
  back is the latest one written whatever was stored before. The codec is a parameter: the
  document must serialize, and its bytes must deserialize to it.
\<close>

theorem rdb_set_get_roundtrip:
  assumes "serialize cd d = Some bs" and "deserialize cd bs = Some d"
  shows "\<exists>s'. rdb_set cd k d t s
             = Inr (if leaf s k = None then STORED else DUPLICATE, s')
           \<and> rdb_get cd k s' = Inr (Some d)"
  using assms
  by (simp add: rdb_set_def rdb_get_def get_data_def new_zeroed_value_def
      find_keyvalue_location_for_write_def find_keyvalue_location_for_read_def
      apply_keyvalue_change_def blob_append_region_def blob_write_from_string_def
      blob_read_to_string_def blob_valuesize_def Let_def)

theorem rdb_set_get_roundtrip_witness:
  "\<exists>s'. rdb_set example_ext [1] [7] 5 example_store = Inr (DUPLICATE, s')
         \<and> rdb_get example_ext [1] s' = Inr (Some [7])"
proof -
  have ser: "serialize example_ext [7] = Some [7]"
    and de: "deserialize example_ext [7] = Some [7]"
    by (simp_all add: example_ext_def)
  show ?thesis
    using rdb_set_get_roundtrip [OF ser de, of "[1]" 5 example_store]
    by (simp add: example_store_def)
qed

text \<open>
  Claim C6. After \<^verbatim>\<open>delete\<close> on a key, \<^verbatim>\<open>get\<close> on that key finds nothing. On a key that is
  present, \<^verbatim>\<open>delete\<close> answers \<^verbatim>\<open>DELETED\<close> and leaves the store with the entry removed and
  the blob of its value cleared, and nothing else changed; on an absent key it answers
  \<^verbatim>\<open>MISSING\<close> and returns the store as it was.
\<close>

theorem rdb_delete_then_get:
  "rdb_get cd k (snd (rdb_delete k t s)) = Inr None
   \<and> (case leaf s k of
        Some (v, t0) \<Rightarrow>
          rdb_delete k t s
            = (DELETED, s\<lparr>leaf := (leaf s)(k := None), blobs := (blobs s)(v := [])\<rparr>)
      | None \<Rightarrow> rdb_delete k t s = (MISSING, s))"
  by (simp add: rdb_delete_def rdb_get_def find_keyvalue_location_for_write_def
      find_keyvalue_location_for_read_def apply_keyvalue_change_def blob_clear_def
      split: option.splits)

section \<open>The transform pipeline\<close>

lemma drain_stream_append: "drain_stream stream out = out @ stream"
  by (induction stream arbitrary: out) simp_all

lemma transform_data_concatmap:
  assumes "\<forall>d\<in>set data. mapping en d = Inr (streams d)"
  shows "transform_data x en (Builtin_ConcatMap mapping) data tmp
           = Inr (tmp @ concat (map streams data))"
  using assms
  by (induction data arbitrary: tmp) (simp_all add: drain_stream_append)

lemma apply_transforms_concatmap:
  assumes "\<forall>d\<in>set data. mapping en d = Inr (streams d)"
  shows "apply_transforms x en [Builtin_ConcatMap mapping] data = Inr (concat (map streams data))"
  using transform_data_concatmap [of data mapping en streams x "[]"] assms by simp

text \<open>
  Claim C9. A concat-map step whose mapping yields the finite stream \<open>streams d\<close> for
  every input document \<open>d\<close> emits the concatenation of these streams, in the order of the
  input documents and, within one document, in the order of its stream; the number of
  documents emitted is the sum of the lengths of the streams.
\<close>

theorem concatmap_emits_all_in_order:
  assumes "\<forall>d\<in>set data. mapping en d = Inr (streams d)"
  shows "\<exists>out. transform_data x en (Builtin_ConcatMap mapping) data [] = Inr out
           \<and> out = concat (map streams data)
           \<and> length out = (\<Sum>d\<leftarrow>data. length (streams d))"
  using assms transform_data_concatmap [of data mapping en streams x "[]"]
  by (simp add: length_concat comp_def)

theorem concatmap_emits_all_in_order_witness:
  "transform_data example_ext ()
     (Builtin_ConcatMap (\<lambda>en d. Inr (map (\<lambda>b. [b]) d))) [[1], [], [2, 3]] []
   = Inr [[1], [2], [3]]"
  using concatmap_emits_all_in_order
    [of "[[1], [], [2, 3]]" "\<lambda>en d. Inr (map (\<lambda>b. [b]) d)" "()"
        "\<lambda>d. map (\<lambda>b. [b]) d" example_ext]
  by simp

section \<open>Keys: predecessor and successor\<close>

text \<open>
  Among the keys of at most \<open>m\<close> bytes, \<^verbatim>\<open>decrement\<close> yields the predecessor of a
  non-empty key and \<^verbatim>\<open>increment\<close> the successor of every key but the largest: a key lies
  strictly above the predecessor of \<open>x\<close> exactly when it is at least \<open>x\<close>, and strictly below
  the successor of \<open>r\<close> exactly when it is at most \<open>r\<close>.
\<close>

lemma byte_le_255: "(a::byte) \<le> 255"
proof -
  have "(255::byte) = - 1" by simp
  then show ?thesis by (simp only: word_n1_ge)
qed

lemma replicate_255_max: "length ks \<le> n \<Longrightarrow> ks \<le> replicate n (255::byte)"
proof (induction n arbitrary: ks)
  case 0 then show ?case by simp
next
  case (Suc n)
  show ?case
  proof (cases ks)
    case Nil then show ?thesis by simp
  next
    case (Cons a as)
    have "as \<le> replicate n 255" using Suc Cons by simp
    with byte_le_255 [of a] show ?thesis using Cons by (auto simp: less_le)
  qed
qed

lemma byte_succ_less: "c \<noteq> (255::byte) \<Longrightarrow> (d < c + 1) = (d \<le> c)"
  by (metis byte_le_255 inc_less_eq_iff verit_comp_simplify1(3))

lemma less_snoc_zero: "(k < r @ [0::byte]) = (k \<le> r)"
proof (induction r arbitrary: k)
  case Nil
  then show ?case by (cases k) (auto simp: word_gt_0)
next
  case (Cons a rs)
  then show ?case by (cases k) auto
qed

lemma takeWhile_255: "takeWhile (\<lambda>b. b = 255) xs = replicate (length (takeWhile (\<lambda>b. b = 255) xs)) (255::byte)"
  by (induction xs) simp_all

lemma strip_trailing_255_decomp:
  "k = strip_trailing_255 k @ replicate (length k - length (strip_trailing_255 k)) 255"
proof -
  let ?P = "\<lambda>b. b = (255::byte)"
  have "k = rev (dropWhile ?P (rev k)) @ rev (takeWhile ?P (rev k))"
    by (metis takeWhile_dropWhile_id rev_append rev_rev_ident)
  then have k: "k = strip_trailing_255 k @ rev (takeWhile ?P (rev k))"
    by (simp add: strip_trailing_255_def)
  then have "length k = length (strip_trailing_255 k) + length (takeWhile ?P (rev k))"
    by (metis length_append length_rev)
  then have len: "length (takeWhile ?P (rev k)) = length k - length (strip_trailing_255 k)"
    by simp
  have "rev (takeWhile ?P (rev k)) = replicate (length (takeWhile ?P (rev k))) 255"
    using takeWhile_255 [of "rev k"] by (metis rev_replicate)
  with k len show ?thesis by simp
qed

lemma strip_trailing_255_last:
  "strip_trailing_255 k \<noteq> [] \<Longrightarrow> last (strip_trailing_255 k) \<noteq> 255"
  using hd_dropWhile [of "\<lambda>b. b = (255::byte)" "rev k"]
  by (simp add: strip_trailing_255_def last_rev)

lemma succ_carry:
  "length k \<le> length p + 1 + j \<Longrightarrow> c \<noteq> 255 \<Longrightarrow>
   (k < p @ [c + 1]) = (k \<le> p @ [c] @ replicate j (255::byte))"
proof (induction p arbitrary: k)
  case Nil
  show ?case
  proof (cases k)
    case Nil then show ?thesis by simp
  next
    case (Cons d ks)
    with Nil.prems have "ks \<le> replicate j 255" by (simp add: replicate_255_max)
    with Cons Nil.prems byte_succ_less [of c d] show ?thesis by (auto simp: less_le)
  qed
next
  case (Cons a ps)
  then show ?case by (cases k) auto
qed

lemma increment_succ:
  assumes "length r \<le> m" and "length k \<le> m"
  shows "case increment m r of (True, r') \<Rightarrow> (k < r') = (k \<le> r) | (False, r') \<Rightarrow> k \<le> r"
proof (cases "length r < m")
  case True
  then show ?thesis by (simp add: increment_def less_snoc_zero)
next
  case False
  with assms have len: "length r = m" by simp
  let ?s = "strip_trailing_255 r"
  let ?j = "length r - length ?s"
  have dec: "r = ?s @ replicate ?j 255" by (rule strip_trailing_255_decomp)
  show ?thesis
  proof (cases "?s = []")
    case True
    with dec have "r = replicate (length r) 255" by simp
    with replicate_255_max [of k "length r"] assms len have "k \<le> r" by simp
    with True False show ?thesis by (simp add: increment_def)
  next
    case nonempty: False
    then have c: "last ?s \<noteq> 255" by (rule strip_trailing_255_last)
    from nonempty have s: "?s = butlast ?s @ [last ?s]" by simp
    have "length r = length ?s + ?j" using dec by (metis length_append length_replicate)
    with s have lenr: "length r = length (butlast ?s) + 1 + ?j"
      by (metis length_append_singleton Suc_eq_plus1)
    have "r = butlast ?s @ [last ?s] @ replicate ?j 255"
      using dec s by (metis append_assoc)
    with succ_carry [of k "butlast ?s" ?j "last ?s"] c lenr len assms
    have "(k < butlast ?s @ [last ?s + 1]) = (k \<le> r)" by simp
    with nonempty False show ?thesis by (simp add: increment_def Let_def)
  qed
qed

lemma byte_pred_less: "0 < (a::byte) \<Longrightarrow> (a - 1 < b) = (a \<le> b)"
  by (metis less_eq_dec_iff less_le_not_le linorder_not_le)

lemma decrement_single:
  "decrement m [a] = (if 0 < a then (True, (a - 1) # replicate (m - 1) 255) else (True, []))"
  by (simp add: decrement_def)

lemma decrement_Cons:
  "decrement m (a # b # xs) = (fst (decrement (m - 1) (b # xs)), a # snd (decrement (m - 1) (b # xs)))"
  by (simp add: decrement_def)

lemma decrement_pred:
  "x \<noteq> [] \<Longrightarrow> length x \<le> m \<Longrightarrow> length k \<le> m \<Longrightarrow>
   fst (decrement m x) \<and> (snd (decrement m x) < k \<longleftrightarrow> x \<le> k)"
proof (induction x arbitrary: k m)
  case Nil then show ?case by simp
next
  case (Cons a xs)
  show ?case
  proof (cases xs)
    case Nil
    show ?thesis
    proof (cases k)
      case Nil with \<open>xs = []\<close> show ?thesis by (simp add: decrement_single)
    next
      case (Cons c ks)
      have "length ks \<le> m - 1" using Cons.prems Cons by simp
      hence "\<not> replicate (m - 1) 255 < ks" using replicate_255_max[of ks "m - 1"] by simp
      thus ?thesis using Cons \<open>xs = []\<close> byte_pred_less[of a c]
        by (auto simp: decrement_single word_gt_0)
    qed
  next
    case (Cons b ys)
    show ?thesis
    proof (cases k)
      case Nil with Cons Cons.IH[of "m - 1" "[]"] Cons.prems show ?thesis by (simp add: decrement_Cons)
    next
      case (Cons c ks)
      with \<open>xs = b # ys\<close> Cons.IH[of "m - 1" ks] Cons.prems show ?thesis
        by (auto simp: decrement_Cons)
    qed
  qed
qed

lemma decrement_Nil: "decrement m [] = (False, [])"
  by (simp add: decrement_def)

section \<open>Range erase: the bounds handed to the primitive\<close>

text \<open>
  For a range whose right end is unbounded or a non-empty key, the keys between the bounds
  that \<^verbatim>\<open>rdb_erase_range\<close> hands to the primitive (exclusive on the left, inclusive on the
  right) are exactly the keys of the range.
\<close>

lemma rdb_erase_range_bounds_correct:
  assumes "length (left keys) \<le> m"
    and "unbounded (right keys) \<or> key (right keys) \<noteq> [] \<and> length (key (right keys)) \<le> m"
    and "length k \<le> m"
  shows "erase_bounds_admit (rdb_erase_range m keys) k = contains_key keys k"
proof -
  have l: "(case (if fst (decrement m (left keys)) then Some (snd (decrement m (left keys))) else None)
              of None \<Rightarrow> True | Some l \<Rightarrow> l < k) = (left keys \<le> k)"
  proof (cases "left keys = []")
    case True
    then show ?thesis by (simp add: decrement_Nil)
  next
    case False
    with decrement_pred [of "left keys" m k] assms show ?thesis by simp
  qed
  have r: "(unbounded (right keys) \<or> k \<le> snd (decrement m (key (right keys))))
             = (unbounded (right keys) \<or> k < key (right keys))"
  proof (cases "unbounded (right keys)")
    case True
    then show ?thesis by simp
  next
    case False
    with decrement_pred [of "key (right keys)" m k] assms show ?thesis by auto
  qed
  show ?thesis
    using l r
    by (auto simp: rdb_erase_range_def rdb_erase_range_keys_def erase_bounds_admit_def
        contains_key_def Let_def split: prod.splits)
qed

text \<open>
  Claim C7. The bounds of a key range are converted into an exclusive left and an
  inclusive right key by taking predecessors, an unbounded side staying unbounded. At the
  range from the empty key to the empty key, which holds no key, the right key has no
  predecessor; the code drops the answer of \<^verbatim>\<open>decrement\<close> for the right key (it keeps it
  for the left one) and hands the primitive ``no left bound'' and the empty key as inclusive
  right bound, an interval that holds the empty key.
\<close>

theorem rdb_erase_range_on_empty_range:
  "rdb_erase_range m key_range_empty
     = \<lparr>left_exclusive_or_null = None, right_inclusive_or_null = Some []\<rparr>
   \<and> erase_bounds_admit (rdb_erase_range m key_range_empty) []
   \<and> \<not> contains_key key_range_empty []"
  by (simp add: rdb_erase_range_def rdb_erase_range_keys_def erase_bounds_admit_def
      contains_key_def key_range_empty_def decrement_Nil)

section \<open>The range filter\<close>

text \<open>
  With at least one bound present, a document whose attribute is present is emitted
  exactly when the printed attribute lies between the printed bounds, an absent bound
  meaning no bound on that side; printed values are keys of at most \<^verbatim>\<open>MAX_KEY_SIZE\<close> bytes.
\<close>

lemma contains_key_closed_none:
  "contains_key (key_range_ctor m bound_closed lo bound_none []) k = (lo \<le> k)"
  by (simp add: key_range_ctor_def contains_key_def)

lemma contains_key_none_closed:
  assumes "length hi \<le> m" and "length k \<le> m"
  shows "contains_key (key_range_ctor m bound_none [] bound_closed hi) k = (k \<le> hi)"
  using increment_succ [OF assms]
  by (auto simp: key_range_ctor_def contains_key_def split: prod.splits bool.splits)

lemma contains_key_closed_closed:
  assumes "length hi \<le> m" and "length k \<le> m"
  shows "contains_key (key_range_ctor m bound_closed lo bound_closed hi) k = (lo \<le> k \<and> k \<le> hi)"
  using increment_succ [OF assms]
  by (auto simp: key_range_ctor_def contains_key_def split: prod.splits bool.splits)

lemma range_filter_with_a_bound:
  assumes "eval_bound lower en = Inr lb" and "eval_bound upper en = Inr ub"
    and "lb \<noteq> None \<or> ub \<noteq> None"
    and "GetObjectItem x json a = Some v"
    and "length (Print x v) \<le> MAX_KEY_SIZE x"
    and "case ub of None \<Rightarrow> True | Some u \<Rightarrow> length (Print x u) \<le> MAX_KEY_SIZE x"
  shows "transform_visitor_t x json out en (Builtin_Range a lower upper)
           = Inr (if (case lb of None \<Rightarrow> True | Some l \<Rightarrow> Print x l \<le> Print x v)
                     \<and> (case ub of None \<Rightarrow> True | Some u \<Rightarrow> Print x v \<le> Print x u)
                  then out @ [json] else out)"
  using assms
  by (auto simp: range_of_bounds_def contains_key_closed_none contains_key_none_closed
      contains_key_closed_closed split: option.splits)

lemma range_filter_attr_absent:
  assumes "eval_bound lower en = Inr lb" and "eval_bound upper en = Inr ub"
    and "GetObjectItem x json a = None"
  shows "transform_visitor_t x json out en (Builtin_Range a lower upper) = Inr out"
  using assms by simp

text \<open>
  With both bounds absent the step tests the printed attribute against the
  default-constructed key range.
\<close>

lemma range_filter_no_bounds:
  assumes "GetObjectItem x json a = Some v"
  shows "transform_visitor_t x json out en (Builtin_Range a None None)
           = Inr (if contains_key (default_key_range x) (Print x v) then out @ [json] else out)"
  using assms by (simp add: eval_bound_def range_of_bounds_def)

text \<open>
  Claim C8. A range step emits the document exactly when the printed attribute lies in the
  key range of the evaluated bounds, where an absent bound means no bound on that side,
  also when both are absent. With both bounds absent no branch of the code assigns the
  key range, which keeps the value of its default construction; where that is the empty
  range, a document whose attribute is present is not emitted.
\<close>

theorem range_filter_without_bounds:
  "GetObjectItem example_ext [5] ''id'' = Some [5]
   \<and> transform_visitor_t example_ext [5] [] () (Builtin_Range ''id'' None None) = Inr []"
  by (simp add: example_ext_def eval_bound_def range_of_bounds_def contains_key_def
      key_range_empty_def)

section \<open>The range scan\<close>

text \<open>
  Claim C3. A scan answers exactly what its traversal leaves: the failure of the traversal,
  or the response of the callback with the truncation flag set to whether the running size
  estimate has reached the chunk budget, true when it has and false when it has not. The
  comparison of the stream length with \<^verbatim>\<open>maximum\<close> has no part in the flag.
\<close>

theorem rdb_rget_slice_truncated:
  "rdb_rget_slice x txn pairs mx en tr te
     = map_sum id
         (\<lambda>cb. (response cb)\<lparr>truncated := (rget_max_chunk_size x \<le> cumulative_size cb)\<rparr>)
         (rget_final_callback x txn pairs mx en tr te)"
  by (simp add: rdb_rget_slice_def split: sum.splits)

lemma example_get_data_0: "get_data example_ext example_store 0 = Inr [10]"
  by (simp add: get_data_def example_ext_def example_store_def blob_read_to_string_def blob_valuesize_def)

lemma example_get_data_1: "get_data example_ext example_store (Suc 0) = Inr [20]"
  by (simp add: get_data_def example_ext_def example_store_def blob_read_to_string_def blob_valuesize_def)

lemma example_chunk: "rget_max_chunk_size example_ext = 1000"
  by (simp add: example_ext_def)

lemma example_tight_get_data_0: "get_data example_ext_tight example_store 0 = Inr [10]"
  by (simp add: get_data_def example_ext_tight_def example_ext_def example_store_def
      blob_read_to_string_def blob_valuesize_def)

lemma example_tight_chunk: "rget_max_chunk_size example_ext_tight = 250"
  by (simp add: example_ext_tight_def)

text \<open>
  Three scans of the same two pairs: one stopped by the budget after the first pair, with
  the stream shorter than \<^verbatim>\<open>maximum\<close> and the flag true; one stopped by \<^verbatim>\<open>maximum\<close> after
  the first pair, with the estimate below the budget and the flag false; one that reaches
  the end of the pairs, with the flag false.
\<close>

theorem rdb_rget_slice_truncated_witness:
  "rdb_rget_slice example_ext_tight example_store [([1], 0), ([2], 1)] 10 () [] None
     = Inr \<lparr>result = stream_t [[10]], truncated = True, last_considered_key = [1]\<rparr>
   \<and> rdb_rget_slice example_ext example_store [([1], 0), ([2], 1)] 1 () [] None
     = Inr \<lparr>result = stream_t [[10]], truncated = False, last_considered_key = [1]\<rparr>
   \<and> rdb_rget_slice example_ext example_store [([1], 0), ([2], 1)] 10 () [] None
     = Inr \<lparr>result = stream_t [[10], [20]], truncated = False, last_considered_key = [2]\<rparr>"
proof -
  have tight: "map_sum id (\<lambda>cb. (response cb, cumulative_size cb))
        (rget_final_callback example_ext_tight example_store [([1], 0), ([2], 1)] 10 () [] None)
      = Inr (\<lparr>result = stream_t [[10]], truncated = False, last_considered_key = [1]\<rparr>, 250)"
    by (simp add: rget_final_callback_def rget_callback_init_def handle_pair_def
        example_tight_get_data_0 example_tight_chunk estimate_rget_response_size_def)
  have by_max: "map_sum id (\<lambda>cb. (response cb, cumulative_size cb))
        (rget_final_callback example_ext example_store [([1], 0), ([2], 1)] 1 () [] None)
      = Inr (\<lparr>result = stream_t [[10]], truncated = False, last_considered_key = [1]\<rparr>, 250)"
    by (simp add: rget_final_callback_def rget_callback_init_def handle_pair_def
        example_get_data_0 example_chunk estimate_rget_response_size_def)
  have whole: "map_sum id (\<lambda>cb. (response cb, cumulative_size cb))
        (rget_final_callback example_ext example_store [([1], 0), ([2], 1)] 10 () [] None)
      = Inr (\<lparr>result = stream_t [[10], [20]], truncated = False, last_considered_key = [2]\<rparr>, 500)"
    by (simp add: rget_final_callback_def rget_callback_init_def handle_pair_def
        example_get_data_0 example_get_data_1 example_chunk estimate_rget_response_size_def)
  have flag: "map_sum id (\<lambda>cb. (response cb)\<lparr>truncated := (b \<le> cumulative_size cb)\<rparr>) F
                = Inr (r\<lparr>truncated := (b \<le> n)\<rparr>)"
    if "map_sum id (\<lambda>cb. (response cb, cumulative_size cb)) F = Inr (r, n)"
    for b n r
      and F :: "error + (unit, byte list) rdb_rget_depth_first_traversal_callback_t"
    using that by (cases F) auto
  have 1: "rdb_rget_slice example_ext_tight example_store [([1], 0), ([2], 1)] 10 () [] None
     = Inr \<lparr>result = stream_t [[10]], truncated = True, last_considered_key = [1]\<rparr>"
    using rdb_rget_slice_truncated
            [of example_ext_tight example_store "[([1], 0), ([2], 1)]" 10 "()" "[]" None]
          flag [OF tight, of 250]
    by (simp add: example_tight_chunk)
  have 2: "rdb_rget_slice example_ext example_store [([1], 0), ([2], 1)] 1 () [] None
     = Inr \<lparr>result = stream_t [[10]], truncated = False, last_considered_key = [1]\<rparr>"
    using rdb_rget_slice_truncated
            [of example_ext example_store "[([1], 0), ([2], 1)]" 1 "()" "[]" None]
          flag [OF by_max, of 1000]
    by (simp add: example_chunk)
  have 3: "rdb_rget_slice example_ext example_store [([1], 0), ([2], 1)] 10 () [] None
     = Inr \<lparr>result = stream_t [[10], [20]], truncated = False, last_considered_key = [2]\<rparr>"
    using rdb_rget_slice_truncated
            [of example_ext example_store "[([1], 0), ([2], 1)]" 10 "()" "[]" None]
          flag [OF whole, of 1000]
    by (simp add: example_chunk)
  from 1 2 3 show ?thesis by simp
qed

text \<open>
  With the count terminal, the result after a pair counts the documents of that pair only,
  whatever the result was before; without a terminal, a handled pair adds 250 to the running
  size estimate, whatever the number of documents it appended.
\<close>

lemma terminal_data_Length:
  "terminal_data en Length data (length_t n) = Inr (length_t (n + int (length data)))"
  by (induction data arbitrary: n) simp_all

lemma handle_pair_Length_counts_one_pair:
  assumes "terminal cb = Some Length" and "handle_pair x cb kv = Inr (c, cb')"
  shows "\<exists>d data. get_data x (transaction cb) (snd kv) = Inr d
           \<and> apply_transforms x (env cb) (transform cb) [d] = Inr data
           \<and> result (response cb') = length_t (int (length data))"
  using assms
  by (auto simp: handle_pair_def terminal_data_Length Let_def split: sum.splits)

lemma handle_pair_size_per_pair:
  assumes "terminal cb = None" and "handle_pair x cb kv = Inr (c, cb')"
  shows "cumulative_size cb' = cumulative_size cb + 250"
  using assms
  by (auto simp: handle_pair_def Let_def estimate_rget_response_size_def
      split: sum.splits result_t.splits if_splits)

text \<open>
  Hence a scan without a terminal that completes has an estimate of 250 times the number
  of pairs it handled (in the arithmetic of \<^verbatim>\<open>size_t\<close>), not of documents it buffered.
\<close>

lemma handle_pair_keeps_terminal:
  assumes "handle_pair x cb kv = Inr (c, cb')"
  shows "terminal cb' = terminal cb"
  using assms
  by (auto simp: handle_pair_def Let_def
      split: sum.splits result_t.splits if_splits option.splits)

lemma traversal_size_per_pair:
  assumes "terminal cb = None" and "btree_depth_first_traversal x pairs cb = Inr cb'"
  shows "\<exists>n\<le>length pairs. cumulative_size cb' = cumulative_size cb + 250 * of_nat n"
  using assms
proof (induction pairs arbitrary: cb)
  case Nil
  then show ?case by simp
next
  case (Cons kv pairs)
  from Cons.prems(2) obtain c cb1 where
    step: "handle_pair x cb kv = Inr (c, cb1)"
    and rest: "(if c then btree_depth_first_traversal x pairs cb1 else Inr cb1) = Inr cb'"
    by (auto split: sum.splits)
  from step Cons.prems(1) have size1: "cumulative_size cb1 = cumulative_size cb + 250"
    by (simp add: handle_pair_size_per_pair)
  show ?case
  proof (cases c)
    case True
    from step Cons.prems(1) have "terminal cb1 = None" by (simp add: handle_pair_keeps_terminal)
    with Cons.IH [of cb1] rest True obtain n where
      "n \<le> length pairs" and "cumulative_size cb' = cumulative_size cb1 + 250 * of_nat n"
      by auto
    with size1 have "Suc n \<le> length (kv # pairs)
        \<and> cumulative_size cb' = cumulative_size cb + 250 * of_nat (Suc n)"
      by (simp add: algebra_simps)
    then show ?thesis by blast
  next
    case False
    with rest size1 have "Suc 0 \<le> length (kv # pairs)
        \<and> cumulative_size cb' = cumulative_size cb + 250 * of_nat (Suc 0)"
      by simp
    then show ?thesis by blast
  qed
qed

text \<open>
  Claim C1. The accumulator of the terminal is initialized once, before any document, so
  that the count terminal ends with the number of all documents that reached it. In the
  code the initializer runs at the start of the terminal branch of every \<^verbatim>\<open>handle_pair\<close>:
  a scan of two pairs without transforms, each pair one document, ends with the count 1.
\<close>

theorem count_terminal_reset_on_every_pair:
  "rdb_rget_slice example_ext example_store [([1], 0), ([2], 1)] 10 () [] (Some Length)
     = Inr \<lparr>result = length_t 1, truncated = False, last_considered_key = [2]\<rparr>"
  by (simp add: rdb_rget_slice_def rget_final_callback_def rget_callback_init_def
        handle_pair_def example_get_data_0 example_get_data_1 example_chunk)

text \<open>
  Claim C2. Without a terminal the running size estimate grows by the constant for every
  document appended to the stream. In the code it grows by the constant once for every
  pair: a pair whose pipeline yields two documents leaves a stream of two documents and an
  estimate of 250.
\<close>

theorem size_estimate_not_per_document:
  "map_sum id (\<lambda>cb. (result (response cb), cumulative_size cb))
     (rget_final_callback example_ext example_store [([1], 0)] 10 ()
        [Builtin_ConcatMap (\<lambda>en d. Inr [d, d])] None)
   = Inr (stream_t [[10], [10]], 250)"
  by (simp add: rget_final_callback_def rget_callback_init_def
        handle_pair_def example_get_data_0 example_chunk estimate_rget_response_size_def)

text \<open>
  Claim C4. When the size estimate is updated from the last element of the stream, the
  stream is not empty. In the code a first pair whose pipeline yields no document reaches
  \<^verbatim>\<open>stream->back()\<close> with the stream empty.
\<close>

theorem back_of_empty_stream:
  "rdb_rget_slice example_ext example_store [([1], 0)] 10 ()
     [Builtin_Filter (\<lambda>en d. Inr False)] None
   = Inl BackOfEmptyVector"
  by (simp add: rdb_rget_slice_def rget_final_callback_def rget_callback_init_def
        handle_pair_def example_get_data_0 example_chunk)

section \<open>Backfill\<close>

text \<open>A range that \<^verbatim>\<open>is_superset\<close> accepts contains every key of the other range.\<close>

lemma is_superset_contains:
  assumes "is_superset r other" and "contains_key other k"
  shows "contains_key r k"
  using assms
  by (auto simp: is_superset_def contains_key_def is_empty_def right_bound_less_def
      split: if_splits)

text \<open>
  One call of the agnostic callback: when it succeeds, the event lies within the range and
  exactly one call, within the range, has been passed on.
\<close>

lemma agnostic_callback_Inr:
  assumes "agnostic_callback cd s kr ev calls = Inr calls'"
  shows "event_within kr ev \<and> (\<exists>c. calls' = calls @ [c] \<and> call_within kr c)"
proof (cases ev)
  case (ev_delete_range rng)
  with assms show ?thesis
    by (simp add: agnostic_callback_def on_delete_range_def split: if_splits) auto
next
  case (ev_deletion k recency)
  with assms show ?thesis
    by (simp add: agnostic_callback_def on_deletion_def split: if_splits) auto
next
  case (ev_pair recency k val)
  with assms show ?thesis
    by (simp add: agnostic_callback_def on_pair_def split: if_splits sum.splits) auto
qed

lemma agnostic_callback_no_assertion:
  assumes "event_within kr ev"
  shows "agnostic_callback cd s kr ev calls \<noteq> Inl AssertionViolation"
proof (cases ev)
  case (ev_delete_range rng)
  with assms show ?thesis by (simp add: agnostic_callback_def on_delete_range_def)
next
  case (ev_deletion k recency)
  with assms show ?thesis by (simp add: agnostic_callback_def on_deletion_def)
next
  case (ev_pair recency k val)
  with assms show ?thesis
    by (simp add: agnostic_callback_def on_pair_def get_data_def split: option.splits)
qed

lemma backfill_calls_within:
  assumes "\<forall>c\<in>set calls. call_within kr c"
  shows "\<forall>c\<in>set (fst (do_agnostic_btree_backfill cd s kr evs calls)). call_within kr c"
  using assms
proof (induction evs arbitrary: calls)
  case Nil
  then show ?case by simp
next
  case (Cons ev evs)
  show ?case
  proof (cases "agnostic_callback cd s kr ev calls")
    case (Inl e)
    with Cons.prems show ?thesis by simp
  next
    case (Inr calls')
    from agnostic_callback_Inr [OF Inr] Cons.prems have "\<forall>c\<in>set calls'. call_within kr c"
      by auto
    from Cons.IH [OF this] Inr show ?thesis by simp
  qed
qed

lemma backfill_no_assertion:
  assumes "\<forall>ev\<in>set evs. event_within kr ev"
  shows "snd (do_agnostic_btree_backfill cd s kr evs calls) \<noteq> Some AssertionViolation"
  using assms
proof (induction evs arbitrary: calls)
  case Nil
  then show ?case by simp
next
  case (Cons ev evs)
  show ?case
  proof (cases "agnostic_callback cd s kr ev calls")
    case (Inl e)
    with agnostic_callback_no_assertion [of kr ev cd s calls] Cons.prems show ?thesis by auto
  next
    case (Inr calls')
    with Cons.IH [of calls'] Cons.prems show ?thesis by simp
  qed
qed

lemma backfill_completed_events_within:
  assumes "snd (do_agnostic_btree_backfill cd s kr evs calls) = None"
  shows "(\<forall>ev\<in>set evs. event_within kr ev)
         \<and> length (fst (do_agnostic_btree_backfill cd s kr evs calls)) = length calls + length evs"
  using assms
proof (induction evs arbitrary: calls)
  case Nil
  then show ?case by simp
next
  case (Cons ev evs)
  show ?case
  proof (cases "agnostic_callback cd s kr ev calls")
    case (Inl e)
    with Cons.prems show ?thesis by simp
  next
    case (Inr calls')
    with Cons.prems have rest: "snd (do_agnostic_btree_backfill cd s kr evs calls') = None"
      by simp
    from agnostic_callback_Inr [OF Inr]
    have "event_within kr ev" and "length calls' = Suc (length calls)" by auto
    with Cons.IH [OF rest] Inr show ?thesis by simp
  qed
qed

text \<open>
  Claim C10. Every key and every key range that backfill passes to the callback lies
  within the requested range, whether the backfill completes or fails. An event outside the
  range fails the assertion before the callback is reached; when the traversal reports
  only events within the range, as a correct traversal does, the assertion does not fail
  (the only failure left is a value that does not deserialize), and a backfill that
  completes has passed on every event of the traversal.
\<close>

theorem rdb_backfill_calls_within_range:
  "(\<forall>c\<in>set (fst (rdb_backfill cd s kr evs)). call_within kr c)
   \<and> ((\<forall>ev\<in>set evs. event_within kr ev)
        \<longrightarrow> snd (rdb_backfill cd s kr evs) \<noteq> Some AssertionViolation)
   \<and> (snd (rdb_backfill cd s kr evs) = None
        \<longrightarrow> (\<forall>ev\<in>set evs. event_within kr ev)
            \<and> length (fst (rdb_backfill cd s kr evs)) = length evs)"
  using backfill_calls_within [of "[]" kr cd s evs]
    backfill_no_assertion [of evs kr cd s "[]"]
    backfill_completed_events_within [of cd s kr evs "[]"]
  by (simp add: rdb_backfill_def)

lemma example_backfill_run:
  "rdb_backfill example_ext example_store example_range example_events
     = ([cb_on_deletion [1, 7] 4,
         cb_on_keyvalue \<lparr>atom_key = [2], atom_value = [20], atom_recency = 1\<rparr>,
         cb_on_delete_range \<lparr>left = [2], right = \<lparr>unbounded = False, key = [2, 9]\<rparr>\<rparr>],
        None)"
proof -
  have 1: "agnostic_callback example_ext example_store example_range (ev_deletion [1, 7] 4) []
             = Inr [cb_on_deletion [1, 7] 4]"
    by (simp add: agnostic_callback_def on_deletion_def example_range_def contains_key_def)
  have 2: "agnostic_callback example_ext example_store example_range (ev_pair 1 [2] 1)
             [cb_on_deletion [1, 7] 4]
           = Inr [cb_on_deletion [1, 7] 4,
                  cb_on_keyvalue \<lparr>atom_key = [2], atom_value = [20], atom_recency = 1\<rparr>]"
    by (simp add: agnostic_callback_def on_pair_def example_range_def contains_key_def
        example_get_data_1)
  have 3: "agnostic_callback example_ext example_store example_range
             (ev_delete_range \<lparr>left = [2], right = \<lparr>unbounded = False, key = [2, 9]\<rparr>\<rparr>)
             [cb_on_deletion [1, 7] 4,
              cb_on_keyvalue \<lparr>atom_key = [2], atom_value = [20], atom_recency = 1\<rparr>]
           = Inr [cb_on_deletion [1, 7] 4,
                  cb_on_keyvalue \<lparr>atom_key = [2], atom_value = [20], atom_recency = 1\<rparr>,
                  cb_on_delete_range \<lparr>left = [2], right = \<lparr>unbounded = False, key = [2, 9]\<rparr>\<rparr>]"
    by (simp add: agnostic_callback_def on_delete_range_def example_range_def is_superset_def
        is_empty_def right_bound_less_def)
  from 1 2 3 show ?thesis
    by (simp add: rdb_backfill_def example_events_def)
qed

theorem rdb_backfill_calls_within_range_witness:
  "rdb_backfill example_ext example_store example_range example_events
     = ([cb_on_deletion [1, 7] 4,
         cb_on_keyvalue \<lparr>atom_key = [2], atom_value = [20], atom_recency = 1\<rparr>,
         cb_on_delete_range \<lparr>left = [2], right = \<lparr>unbounded = False, key = [2, 9]\<rparr>\<rparr>],
        None)
   \<and> list_all (event_within example_range) example_events
   \<and> list_all (call_within example_range)
        (fst (rdb_backfill example_ext example_store example_range example_events))"
proof -
  from rdb_backfill_calls_within_range
         [of example_ext example_store example_range example_events]
  have "(\<forall>c\<in>set (fst (rdb_backfill example_ext example_store example_range example_events)).
            call_within example_range c)
        \<and> (snd (rdb_backfill example_ext example_store example_range example_events) = None
             \<longrightarrow> (\<forall>ev\<in>set example_events. event_within example_range ev))"
    by blast
  with example_backfill_run show ?thesis by (simp add: list_all_iff)
qed

text \<open>An event outside the range ends the backfill at the assertion.\<close>

lemma rdb_backfill_outside_event:
  "rdb_backfill example_ext example_store example_range
     [ev_deletion [1, 7] 4, ev_deletion [3] 5, ev_deletion [2] 6]
   = ([cb_on_deletion [1, 7] 4], Some AssertionViolation)"
proof -
  have 1: "agnostic_callback example_ext example_store example_range (ev_deletion [1, 7] 4) []
             = Inr [cb_on_deletion [1, 7] 4]"
    by (simp add: agnostic_callback_def on_deletion_def example_range_def contains_key_def)
  have 2: "agnostic_callback example_ext example_store example_range (ev_deletion [3] 5)
             [cb_on_deletion [1, 7] 4]
           = Inl AssertionViolation"
    by (simp add: agnostic_callback_def on_deletion_def example_range_def contains_key_def)
  from 1 2 show ?thesis by (simp add: rdb_backfill_def)
qed

end
